theory Spec2Isabelle
  imports Main "HOL-Library.Word" "HOL-Library.AList"
begin

section \<open>BusTub buffer pool: data model\<close>

text \<open>
  A shallow embedding of \<^verbatim>\<open>src/buffer/lru_replacer.cpp\<close> and
  \<^verbatim>\<open>src/buffer/buffer_pool_manager.cpp\<close>. Member names lose their trailing
  underscore (\<^verbatim>\<open>pages_\<close> is \<open>pages\<close>), which Isabelle does not accept in a
  constant's name; parameters called \<^verbatim>\<open>page_id\<close> and \<^verbatim>\<open>is_dirty\<close> in the source
  are \<open>pid\<close> and \<open>dirty\<close>, since the fields of the same name are constants here.

  Page and frame identifiers (\<^verbatim>\<open>int32_t\<close>) are only stored and compared, never
  computed with, so they are integers. The pin count is incremented and decremented, so it
  is a 32-bit word. A \<^verbatim>\<open>Page *\<close> into \<^verbatim>\<open>pages_\<close> is the index of its frame,
  \<^verbatim>\<open>nullptr\<close> is \<open>None\<close>.
\<close>

type_synonym page_id_t = int
type_synonym frame_id_t = int
type_synonym page_data = "8 word list"

text \<open>
  What a call does instead of returning: it blocks for ever on the latch its own thread
  already holds (\<^verbatim>\<open>std::mutex::lock\<close>), it indexes \<^verbatim>\<open>pages_\<close> outside the
  array, or it calls \<^verbatim>\<open>front()\<close> on an empty \<^verbatim>\<open>std::list\<close>. The last two are
  undefined behaviour in C++; the model stops there with the fault.
\<close>

datatype fault = Deadlock | OutOfBounds | EmptyFront

subsection \<open>LRUReplacer\<close>

text \<open>
  \<^verbatim>\<open>list_frame_id\<close> is the \<^verbatim>\<open>std::list\<close>, front first. \<^verbatim>\<open>map_frame_id\<close> maps a
  frame id to an iterator into that list; an iterator is modelled by the element of the
  node it designates, so \<^verbatim>\<open>list_frame_id.erase(it)\<close> removes that element.
\<close>

record LRUReplacer =
  list_frame_id :: "frame_id_t list"
  map_frame_id :: "frame_id_t \<rightharpoonup> frame_id_t"
  maxLen :: nat

definition LRUReplacer_init :: "nat \<Rightarrow> LRUReplacer" where
  "LRUReplacer_init num_pages =
     \<lparr>list_frame_id = [], map_frame_id = Map.empty, maxLen = num_pages\<rparr>"

definition Size :: "LRUReplacer \<Rightarrow> nat" where
  "Size r = length (list_frame_id r)"

text \<open>
  \<^verbatim>\<open>bool Victim(frame_id_t *frame_id)\<close>: \<open>Some f\<close> is \<^verbatim>\<open>true\<close> with
  \<^verbatim>\<open>*frame_id = f\<close>, \<open>None\<close> is \<^verbatim>\<open>false\<close> with \<^verbatim>\<open>*frame_id\<close> untouched.
\<close>

definition Victim :: "LRUReplacer \<Rightarrow> frame_id_t option \<times> LRUReplacer" where
  "Victim r =
     (if list_frame_id r = [] then (None, r)
      else
        let pop_front_frame_id = last (list_frame_id r) in
        (Some pop_front_frame_id,
         r\<lparr>map_frame_id := (map_frame_id r)(pop_front_frame_id := None),
           list_frame_id := butlast (list_frame_id r)\<rparr>))"

definition Pin :: "LRUReplacer \<Rightarrow> frame_id_t \<Rightarrow> LRUReplacer" where
  "Pin r frame_id =
     (case map_frame_id r frame_id of
        None \<Rightarrow> r
      | Some it \<Rightarrow>
          r\<lparr>list_frame_id := remove1 it (list_frame_id r),
            map_frame_id := (map_frame_id r)(frame_id := None)\<rparr>)"

text \<open>
  The loop \<^verbatim>\<open>for (; Size() >= maxLen;)\<close> of \<^verbatim>\<open>Unpin\<close>, on the list and the map:
  it drops front elements while the list is at capacity. With \<^verbatim>\<open>maxLen = 0\<close> the
  condition stays true on the empty list, where \<^verbatim>\<open>front()\<close> is undefined.
\<close>

fun Unpin_loop ::
  "nat \<Rightarrow> frame_id_t list \<Rightarrow> (frame_id_t \<rightharpoonup> frame_id_t) \<Rightarrow>
     fault + (frame_id_t list \<times> (frame_id_t \<rightharpoonup> frame_id_t))" where
  "Unpin_loop m [] mp = (if 0 \<ge> m then Inl EmptyFront else Inr ([], mp))"
| "Unpin_loop m (tmp_frame_id # xs) mp =
     (if length (tmp_frame_id # xs) \<ge> m then Unpin_loop m xs (mp(tmp_frame_id := None))
      else Inr (tmp_frame_id # xs, mp))"

definition Unpin :: "LRUReplacer \<Rightarrow> frame_id_t \<Rightarrow> fault + LRUReplacer" where
  "Unpin r frame_id =
     (if map_frame_id r frame_id \<noteq> None then Inr r
      else
        case Unpin_loop (maxLen r) (list_frame_id r) (map_frame_id r) of
          Inl e \<Rightarrow> Inl e
        | Inr (xs, mp) \<Rightarrow>
            Inr (r\<lparr>list_frame_id := frame_id # xs,
                  map_frame_id := mp(frame_id \<mapsto> frame_id)\<rparr>))"

text \<open>
  The three unpins and the three victim calls of the LRU-order property, in sequence:
  the results of the victim calls, or the fault of an unpin.
\<close>

definition unpin3_victim3 ::
  "LRUReplacer \<Rightarrow> frame_id_t \<Rightarrow> frame_id_t \<Rightarrow> frame_id_t \<Rightarrow>
     fault + (frame_id_t option \<times> frame_id_t option \<times> frame_id_t option)" where
  "unpin3_victim3 r a b c =
     (case Unpin r a of
        Inl e \<Rightarrow> Inl e
      | Inr r1 \<Rightarrow>
          (case Unpin r1 b of
             Inl e \<Rightarrow> Inl e
           | Inr r2 \<Rightarrow>
               (case Unpin r2 c of
                  Inl e \<Rightarrow> Inl e
                | Inr r3 \<Rightarrow>
                    (let (v1, r4) = Victim r3; (v2, r5) = Victim r4; (v3, r6) = Victim r5
                     in Inr (v1, v2, v3)))))"

subsection \<open>The disk manager\<close>

text \<open>
  Modelled from the spec: the disk manager (\<^verbatim>\<open>DiskManager\<close>) is not among the
  sources. Section 6 of the specification gives its four operations. \<open>stored\<close> is what
  \<^verbatim>\<open>read_page\<close> gives back for each page id, \<open>outstanding\<close> the ids allocated and
  not deallocated, \<open>calls\<close> the calls received, oldest first.
\<close>

datatype disk_call =
  ReadPage_call page_id_t
| WritePage_call page_id_t page_data
| AllocatePage_call page_id_t
| DeallocatePage_call page_id_t

record DiskManager =
  stored :: "page_id_t \<Rightarrow> page_data"
  next_page_id :: page_id_t
  outstanding :: "page_id_t list"
  calls :: "disk_call list"

text \<open>Modelled from the spec: a disk manager that has allocated and stored nothing.\<close>

definition DiskManager_init :: "nat \<Rightarrow> DiskManager" where
  "DiskManager_init PAGE_SIZE =
     \<lparr>stored = (\<lambda>_. replicate PAGE_SIZE 0), next_page_id = 0, outstanding = [], calls = []\<rparr>"

text \<open>
  Modelled from the spec: \<^verbatim>\<open>write_page(page_id, buffer)\<close> persists the buffer as the
  contents of the page.
\<close>

definition WritePage :: "DiskManager \<Rightarrow> page_id_t \<Rightarrow> page_data \<Rightarrow> DiskManager" where
  "WritePage dm pid buf =
     dm\<lparr>stored := (stored dm)(pid := buf), calls := calls dm @ [WritePage_call pid buf]\<rparr>"

text \<open>
  Modelled from the spec: \<^verbatim>\<open>read_page(page_id, buffer)\<close> fills the buffer with the
  stored contents.
\<close>

definition ReadPage :: "DiskManager \<Rightarrow> page_id_t \<Rightarrow> page_data \<times> DiskManager" where
  "ReadPage dm pid = (stored dm pid, dm\<lparr>calls := calls dm @ [ReadPage_call pid]\<rparr>)"

text \<open>
  Modelled from the spec: \<^verbatim>\<open>allocate_page()\<close> returns a fresh id, distinct from all
  outstanding ones; the ids are handed out in increasing order from a counter.
\<close>

definition AllocatePage :: "DiskManager \<Rightarrow> page_id_t \<times> DiskManager" where
  "AllocatePage dm =
     (next_page_id dm,
      dm\<lparr>next_page_id := next_page_id dm + 1,
         outstanding := outstanding dm @ [next_page_id dm],
         calls := calls dm @ [AllocatePage_call (next_page_id dm)]\<rparr>)"

text \<open>
  Modelled from the spec: \<^verbatim>\<open>deallocate_page(page_id)\<close> marks the id reusable; it is
  no longer outstanding.
\<close>

definition DeallocatePage :: "DiskManager \<Rightarrow> page_id_t \<Rightarrow> DiskManager" where
  "DeallocatePage dm pid =
     dm\<lparr>outstanding := removeAll pid (outstanding dm),
        calls := calls dm @ [DeallocatePage_call pid]\<rparr>"

subsection \<open>Pages\<close>

text \<open>
  Modelled from the spec: \<^verbatim>\<open>INVALID_PAGE_ID\<close> is declared outside the sources; it is
  the sentinel of section 6, \<open>-1\<close> in BusTub. No theorem below depends on its value
  except the evaluations at concrete states.
\<close>

definition INVALID_PAGE_ID :: page_id_t where
  "INVALID_PAGE_ID = - 1"

text \<open>
  Modelled from the spec: the class \<^verbatim>\<open>Page\<close> is declared outside the sources; its
  members are the attributes of a frame slot in section 3, with the types the source uses
  them at. A new page has zeroed data, the invalid id, no pin and is clean.
\<close>

record Page =
  data :: page_data
  page_id :: page_id_t
  pin_count :: "32 word"
  is_dirty :: bool

definition ResetMemory :: "Page \<Rightarrow> Page" where
  "ResetMemory pg = pg\<lparr>data := replicate (length (data pg)) 0\<rparr>"

definition Page_init :: "nat \<Rightarrow> Page" where
  "Page_init PAGE_SIZE =
     \<lparr>data = replicate PAGE_SIZE 0, page_id = INVALID_PAGE_ID, pin_count = 0, is_dirty = False\<rparr>"

subsection \<open>BufferPoolManager\<close>

text \<open>
  \<^verbatim>\<open>page_table_\<close> is a \<^verbatim>\<open>std::unordered_map\<close> with unique keys. It is an
  association list here because \<^verbatim>\<open>FetchPageImpl\<close> and \<^verbatim>\<open>FlushAllPagesImpl\<close> iterate
  over it: the list's order stands for the map's iteration order, new keys going last.
  \<^verbatim>\<open>latch_\<close> is \<open>True\<close> while the mutex is held. \<^verbatim>\<open>log_manager_\<close> is stored and
  never used, and is left out.
\<close>

record BufferPoolManager =
  pool_size :: nat
  pages :: "Page list"
  page_table :: "(page_id_t \<times> frame_id_t) list"
  free_list :: "frame_id_t list"
  replacer :: LRUReplacer
  disk_manager :: DiskManager
  latch :: bool

text \<open>\<^verbatim>\<open>static_cast<int>(i)\<close> for a \<^verbatim>\<open>size_t\<close>: the low 32 bits, read as signed.\<close>

definition static_cast_int :: "nat \<Rightarrow> int" where
  "static_cast_int i = sint (word_of_nat i :: 32 word)"

text \<open>
  The constructor. \<open>PAGE_SIZE\<close>, a constant declared outside the sources, is a
  parameter.
\<close>

definition BufferPoolManager_init :: "nat \<Rightarrow> nat \<Rightarrow> DiskManager \<Rightarrow> BufferPoolManager" where
  "BufferPoolManager_init n PAGE_SIZE dm =
     \<lparr>pool_size = n,
      pages = replicate n (Page_init PAGE_SIZE),
      page_table = [],
      free_list = map static_cast_int [0..<n],
      replacer = LRUReplacer_init n,
      disk_manager = dm,
      latch = False\<rparr>"

text \<open>\<^verbatim>\<open>pages_[f]\<close> is inside the array \<^verbatim>\<open>new Page[pool_size_]\<close>.\<close>

definition frame_in_pool :: "BufferPoolManager \<Rightarrow> frame_id_t \<Rightarrow> bool" where
  "frame_in_pool s f = (0 \<le> f \<and> nat f < length (pages s))"

text \<open>
  The loop of \<^verbatim>\<open>FetchPageImpl\<close> over the page table: the key of the first entry whose
  frame is the victim, \<^verbatim>\<open>INVALID_PAGE_ID\<close> when there is none.
\<close>

fun FetchPageImpl_find :: "(page_id_t \<times> frame_id_t) list \<Rightarrow> frame_id_t \<Rightarrow> page_id_t" where
  "FetchPageImpl_find [] tmp_frame_id = INVALID_PAGE_ID"
| "FetchPageImpl_find ((p, f) # pt) tmp_frame_id =
     (if f = tmp_frame_id then p else FetchPageImpl_find pt tmp_frame_id)"

text \<open>
  The install block of \<^verbatim>\<open>FetchPageImpl\<close> (lines 59 to 83), entered only when the free
  list is empty and \<^verbatim>\<open>Victim\<close> returned \<^verbatim>\<open>true\<close>.
\<close>

definition FetchPageImpl_install ::
  "BufferPoolManager \<Rightarrow> page_id_t \<Rightarrow> frame_id_t \<Rightarrow> BufferPoolManager" where
  "FetchPageImpl_install s pid tmp_frame_id =
     (let tmp_page_id = FetchPageImpl_find (page_table s) tmp_frame_id;
          replace_page = pages s ! nat tmp_frame_id;
          s1 = (if tmp_page_id \<noteq> INVALID_PAGE_ID then
                  (let s' = (if is_dirty replace_page then
                               s\<lparr>disk_manager :=
                                    WritePage (disk_manager s) tmp_page_id (data replace_page),
                                 pages := (pages s)[nat tmp_frame_id :=
                                    replace_page\<lparr>pin_count := 0\<rparr>]\<rparr>
                             else s)
                   in s'\<lparr>page_table := AList.delete (page_id replace_page) (page_table s')\<rparr>)
                else s);
          (buf, dm) = ReadPage (disk_manager s1) pid;
          new_page = pages s1 ! nat tmp_frame_id
      in s1\<lparr>pages := (pages s1)[nat tmp_frame_id :=
                 new_page\<lparr>page_id := pid, data := buf,
                          pin_count := pin_count new_page + 1, is_dirty := False\<rparr>],
            page_table := AList.update pid tmp_frame_id (page_table s1),
            disk_manager := dm,
            replacer := Pin (replacer s1) tmp_frame_id\<rparr>)"

definition FetchPageImpl ::
  "BufferPoolManager \<Rightarrow> page_id_t \<Rightarrow> fault + (frame_id_t option \<times> BufferPoolManager)" where
  "FetchPageImpl s0 pid =
     (if latch s0 then Inl Deadlock
      else
        let s = s0\<lparr>latch := True\<rparr> in
        (case map_of (page_table s) pid of
           Some f \<Rightarrow>
             if \<not> frame_in_pool s f then Inl OutOfBounds
             else
               Inr (Some f,
                    s\<lparr>replacer := Pin (replacer s) f,
                      pages := (pages s)[nat f :=
                         (pages s ! nat f)\<lparr>pin_count := pin_count (pages s ! nat f) + 1\<rparr>],
                      latch := False\<rparr>)
         | None \<Rightarrow>
             if free_list s \<noteq> [] then
               Inr (None, s\<lparr>free_list := tl (free_list s), latch := False\<rparr>)
             else
               (case Victim (replacer s) of
                  (None, r) \<Rightarrow> Inr (None, s\<lparr>replacer := r, latch := False\<rparr>)
                | (Some tmp_frame_id, r) \<Rightarrow>
                    if \<not> frame_in_pool s tmp_frame_id then Inl OutOfBounds
                    else
                      Inr (Some tmp_frame_id,
                           (FetchPageImpl_install (s\<lparr>replacer := r\<rparr>) pid tmp_frame_id)
                             \<lparr>latch := False\<rparr>))))"

definition UnpinPageImpl ::
  "BufferPoolManager \<Rightarrow> page_id_t \<Rightarrow> bool \<Rightarrow> fault + (bool \<times> BufferPoolManager)" where
  "UnpinPageImpl s0 pid dirty =
     (if latch s0 then Inl Deadlock
      else
        let s = s0\<lparr>latch := True\<rparr> in
        (case map_of (page_table s) pid of
           None \<Rightarrow> Inr (False, s\<lparr>latch := False\<rparr>)
         | Some tmp_frame_id \<Rightarrow>
             if \<not> frame_in_pool s tmp_frame_id then Inl OutOfBounds
             else
               let s1 = (if dirty then
                           s\<lparr>pages := (pages s)[nat tmp_frame_id :=
                                (pages s ! nat tmp_frame_id)\<lparr>is_dirty := True\<rparr>]\<rparr>
                         else s)
               in
               if pin_count (pages s1 ! nat tmp_frame_id) = 0 then
                 Inr (False, s1\<lparr>latch := False\<rparr>)
               else
                 let s2 = s1\<lparr>pages := (pages s1)[nat tmp_frame_id :=
                               (pages s1 ! nat tmp_frame_id)
                                 \<lparr>pin_count := pin_count (pages s1 ! nat tmp_frame_id) - 1\<rparr>]\<rparr>
                 in
                 if pin_count (pages s2 ! nat tmp_frame_id) = 0 then
                   (case Unpin (replacer s2) tmp_frame_id of
                      Inl e \<Rightarrow> Inl e
                    | Inr r \<Rightarrow> Inr (True, s2\<lparr>replacer := r, latch := False\<rparr>))
                 else Inr (True, s2\<lparr>latch := False\<rparr>)))"

definition FlushPageImpl ::
  "BufferPoolManager \<Rightarrow> page_id_t \<Rightarrow> fault + (bool \<times> BufferPoolManager)" where
  "FlushPageImpl s0 pid =
     (if latch s0 then Inl Deadlock
      else
        let s = s0\<lparr>latch := True\<rparr> in
        (case map_of (page_table s) pid of
           None \<Rightarrow> Inr (False, s\<lparr>latch := False\<rparr>)
         | Some f \<Rightarrow>
             if pid = INVALID_PAGE_ID then Inr (False, s\<lparr>latch := False\<rparr>)
             else if \<not> frame_in_pool s f then Inl OutOfBounds
             else
               Inr (False,
                    s\<lparr>disk_manager := WritePage (disk_manager s) pid (data (pages s ! nat f)),
                      latch := False\<rparr>)))"

text \<open>
  \<^verbatim>\<open>NewPageImpl\<close>, lines 139 to 154: the frame taken from the free list or from the
  replacer; \<open>- 1\<close> is the initial value of \<^verbatim>\<open>tmp_frame_id_\<close>, kept when neither gives
  one.
\<close>

definition NewPageImpl_frame ::
  "BufferPoolManager \<Rightarrow> fault + (frame_id_t \<times> BufferPoolManager)" where
  "NewPageImpl_frame s =
     (if free_list s \<noteq> [] then Inr (hd (free_list s), s\<lparr>free_list := tl (free_list s)\<rparr>)
      else
        (case Victim (replacer s) of
           (None, r) \<Rightarrow> Inr (- 1, s\<lparr>replacer := r\<rparr>)
         | (Some tmp_frame_id, r) \<Rightarrow>
             if \<not> frame_in_pool s tmp_frame_id then Inl OutOfBounds
             else
               let replace_page = pages s ! nat tmp_frame_id;
                   s1 = (if is_dirty replace_page then
                           s\<lparr>disk_manager :=
                                WritePage (disk_manager s) (page_id replace_page) (data replace_page),
                             pages := (pages s)[nat tmp_frame_id := replace_page\<lparr>pin_count := 0\<rparr>]\<rparr>
                         else s)
               in
               Inr (tmp_frame_id,
                    s1\<lparr>replacer := r,
                       page_table := AList.delete (page_id replace_page) (page_table s1),
                       pages := (pages s1)[nat tmp_frame_id :=
                          ResetMemory ((pages s1 ! nat tmp_frame_id)
                            \<lparr>page_id := INVALID_PAGE_ID\<rparr>)]\<rparr>)))"

text \<open>
  \<^verbatim>\<open>page_table_.insert(pair)\<close>: a \<^verbatim>\<open>std::unordered_map\<close> keeps the old entry when
  the key is there already.
\<close>

definition page_table_insert ::
  "(page_id_t \<times> frame_id_t) list \<Rightarrow> page_id_t \<Rightarrow> frame_id_t \<Rightarrow> (page_id_t \<times> frame_id_t) list" where
  "page_table_insert pt pid f = (case map_of pt pid of None \<Rightarrow> pt @ [(pid, f)] | Some _ \<Rightarrow> pt)"

text \<open>
  The result is the frame and the value written to \<^verbatim>\<open>*page_id\<close>; \<open>None\<close> is
  \<^verbatim>\<open>nullptr\<close>, with \<^verbatim>\<open>*page_id\<close> untouched.
\<close>

definition NewPageImpl ::
  "BufferPoolManager \<Rightarrow> fault + ((frame_id_t \<times> page_id_t) option \<times> BufferPoolManager)" where
  "NewPageImpl s0 =
     (if latch s0 then Inl Deadlock
      else
        let (tmp_page_id, dm) = AllocatePage (disk_manager s0);
            s = s0\<lparr>latch := True, disk_manager := dm\<rparr>
        in
        (case NewPageImpl_frame s of
           Inl e \<Rightarrow> Inl e
         | Inr (tmp_frame_id, s1) \<Rightarrow>
             if tmp_frame_id \<noteq> - 1 then
               if \<not> frame_in_pool s1 tmp_frame_id then Inl OutOfBounds
               else
                 let page = (pages s1 ! nat tmp_frame_id)
                              \<lparr>is_dirty := False, page_id := tmp_page_id, pin_count := 1\<rparr>
                 in
                 Inr (Some (tmp_frame_id, tmp_page_id),
                      s1\<lparr>pages := (pages s1)[nat tmp_frame_id := page],
                         disk_manager := WritePage (disk_manager s1) tmp_page_id (data page),
                         page_table := page_table_insert (page_table s1) tmp_page_id tmp_frame_id,
                         latch := False\<rparr>)
             else Inr (None, s1\<lparr>latch := False\<rparr>)))"

text \<open>
  \<^verbatim>\<open>DeletePageImpl\<close> calls \<^verbatim>\<open>FetchPageImpl\<close> on a dirty page while it holds the latch.
  After that call, \<^verbatim>\<open>page_table_[page_id]\<close> is read again; \<^verbatim>\<open>operator[]\<close> gives
  frame 0 for a key that is not there (the entry it adds is erased two lines later).
\<close>

definition DeletePageImpl ::
  "BufferPoolManager \<Rightarrow> page_id_t \<Rightarrow> fault + (bool \<times> BufferPoolManager)" where
  "DeletePageImpl s0 pid =
     (if latch s0 then Inl Deadlock
      else
        let s = s0\<lparr>latch := True\<rparr> in
        (case map_of (page_table s) pid of
           None \<Rightarrow> Inr (True, s\<lparr>latch := False\<rparr>)
         | Some tmp_frame_id \<Rightarrow>
             if \<not> frame_in_pool s tmp_frame_id then Inl OutOfBounds
             else if pin_count (pages s ! nat tmp_frame_id) \<noteq> 0 then
               Inr (False, s\<lparr>latch := False\<rparr>)
             else
               (case (if is_dirty (pages s ! nat tmp_frame_id) then FetchPageImpl s pid
                      else Inr (None, s)) of
                  Inl e \<Rightarrow> Inl e
                | Inr (_, s1) \<Rightarrow>
                    let s2 = s1\<lparr>disk_manager := DeallocatePage (disk_manager s1) pid\<rparr>;
                        f = (case map_of (page_table s2) pid of Some f \<Rightarrow> f | None \<Rightarrow> 0)
                    in
                    if \<not> frame_in_pool s2 f then Inl OutOfBounds
                    else
                      Inr (True,
                           s2\<lparr>pages := (pages s2)[nat f :=
                                 (ResetMemory (pages s2 ! nat f))
                                   \<lparr>page_id := INVALID_PAGE_ID, is_dirty := False\<rparr>],
                              page_table := AList.delete pid (page_table s2),
                              free_list := free_list s2 @ [tmp_frame_id],
                              latch := False\<rparr>))))"

fun FlushAllPagesImpl_loop ::
  "Page list \<Rightarrow> (page_id_t \<times> frame_id_t) list \<Rightarrow> DiskManager \<Rightarrow> fault + DiskManager" where
  "FlushAllPagesImpl_loop pgs [] dm = Inr dm"
| "FlushAllPagesImpl_loop pgs ((p, f) # pt) dm =
     (if 0 \<le> f \<and> nat f < length pgs then
        FlushAllPagesImpl_loop pgs pt (WritePage dm p (data (pgs ! nat f)))
      else Inl OutOfBounds)"

definition FlushAllPagesImpl :: "BufferPoolManager \<Rightarrow> fault + BufferPoolManager" where
  "FlushAllPagesImpl s0 =
     (if latch s0 then Inl Deadlock
      else
        (case FlushAllPagesImpl_loop (pages s0) (page_table s0) (disk_manager s0) of
           Inl e \<Rightarrow> Inl e
         | Inr dm \<Rightarrow> Inr (s0\<lparr>disk_manager := dm, latch := False\<rparr>)))"

subsection \<open>Reachable states and invariant I4\<close>

text \<open>
  The states the public operations reach from a newly constructed pool. A call that does
  not return (a fault) reaches nothing.
\<close>

inductive reachable :: "BufferPoolManager \<Rightarrow> bool" where
  reachable_init: "reachable (BufferPoolManager_init n PAGE_SIZE dm)"
| reachable_fetch: "reachable s \<Longrightarrow> FetchPageImpl s pid = Inr (r, s') \<Longrightarrow> reachable s'"
| reachable_new: "reachable s \<Longrightarrow> NewPageImpl s = Inr (r', s') \<Longrightarrow> reachable s'"
| reachable_unpin: "reachable s \<Longrightarrow> UnpinPageImpl s pid dirty = Inr (b, s') \<Longrightarrow> reachable s'"
| reachable_flush: "reachable s \<Longrightarrow> FlushPageImpl s pid = Inr (b, s') \<Longrightarrow> reachable s'"
| reachable_flush_all: "reachable s \<Longrightarrow> FlushAllPagesImpl s = Inr s' \<Longrightarrow> reachable s'"
| reachable_delete: "reachable s \<Longrightarrow> DeletePageImpl s pid = Inr (b, s') \<Longrightarrow> reachable s'"

text \<open>
  Invariant I4 of the specification, as a test on a state: every frame whose page id is
  invalid is in the free list, unpinned and clean; every entry of the free list is a
  frame whose page id is invalid.
\<close>

definition I4 :: "BufferPoolManager \<Rightarrow> bool" where
  "I4 s =
     (list_all
        (\<lambda>f. if page_id (pages s ! f) = INVALID_PAGE_ID
             then int f \<in> set (free_list s) \<and> pin_count (pages s ! f) = 0 \<and>
                  \<not> is_dirty (pages s ! f)
             else True)
        [0..<length (pages s)] \<and>
      list_all (\<lambda>f. frame_in_pool s f \<and> page_id (pages s ! nat f) = INVALID_PAGE_ID)
        (free_list s))"

subsection \<open>A pool of one frame\<close>

text \<open>
  The states of a short run on a pool with one frame and pages of 4096 bytes, over a disk
  manager that has allocated nothing: after construction; after \<^verbatim>\<open>NewPage\<close> (page 0
  in frame 0, pinned); after \<^verbatim>\<open>UnpinPage(0, false)\<close>; after a second \<^verbatim>\<open>NewPage\<close>
  (page 1 in frame 0, page 0 evicted).
\<close>

definition pool1 :: BufferPoolManager where
  "pool1 = BufferPoolManager_init 1 4096 (DiskManager_init 4096)"

definition pool1_pinned :: BufferPoolManager where
  "pool1_pinned =
     \<lparr>pool_size = 1,
      pages = [\<lparr>data = replicate 4096 0, page_id = 0, pin_count = 1, is_dirty = False\<rparr>],
      page_table = [(0, 0)],
      free_list = [],
      replacer = \<lparr>list_frame_id = [], map_frame_id = Map.empty, maxLen = 1\<rparr>,
      disk_manager =
        \<lparr>stored = (\<lambda>_. replicate 4096 0)(0 := replicate 4096 0),
         next_page_id = 1,
         outstanding = [0],
         calls = [AllocatePage_call 0, WritePage_call 0 (replicate 4096 0)]\<rparr>,
      latch = False\<rparr>"

definition pool1_unpinned :: BufferPoolManager where
  "pool1_unpinned =
     pool1_pinned
       \<lparr>pages := [\<lparr>data = replicate 4096 0, page_id = 0, pin_count = 0, is_dirty = False\<rparr>],
        replacer := \<lparr>list_frame_id = [0], map_frame_id = [0 \<mapsto> 0], maxLen = 1\<rparr>\<rparr>"

definition pool1_evicted :: BufferPoolManager where
  "pool1_evicted =
     \<lparr>pool_size = 1,
      pages = [\<lparr>data = replicate 4096 0, page_id = 1, pin_count = 1, is_dirty = False\<rparr>],
      page_table = [(1, 0)],
      free_list = [],
      replacer = \<lparr>list_frame_id = [], map_frame_id = [0 \<mapsto> 0](0 := None), maxLen = 1\<rparr>,
      disk_manager =
        \<lparr>stored = (\<lambda>_. replicate 4096 0)(0 := replicate 4096 0, 1 := replicate 4096 0),
         next_page_id = 2,
         outstanding = [0, 1],
         calls = [AllocatePage_call 0, WritePage_call 0 (replicate 4096 0),
                  AllocatePage_call 1, WritePage_call 1 (replicate 4096 0)]\<rparr>,
      latch = False\<rparr>"

subsection \<open>Well-formed pools\<close>

text \<open>
  The frame ids that index \<^verbatim>\<open>pages_\<close>, and the pools whose latch is free and whose
  free list, page table and replacer hold only such ids. \<open>frames_kept\<close> relates the
  states before and after a call that hands frame ids from one of the three to another
  and invents none.
\<close>

definition pool_frames :: "BufferPoolManager \<Rightarrow> frame_id_t set" where
  "pool_frames s = {f. frame_in_pool s f}"

definition wf_pool :: "BufferPoolManager \<Rightarrow> bool" where
  "wf_pool s =
     (\<not> latch s \<and> length (pages s) = pool_size s \<and> maxLen (replacer s) = pool_size s \<and>
      set (free_list s) \<subseteq> pool_frames s \<and>
      snd ` set (page_table s) \<subseteq> pool_frames s \<and>
      set (list_frame_id (replacer s)) \<subseteq> pool_frames s)"

definition frames_kept :: "BufferPoolManager \<Rightarrow> BufferPoolManager \<Rightarrow> bool" where
  "frames_kept s s' =
     (\<not> latch s' \<and> length (pages s') = length (pages s) \<and> pool_size s' = pool_size s \<and>
      maxLen (replacer s') = maxLen (replacer s) \<and>
      set (free_list s') \<subseteq> set (free_list s) \<union> snd ` set (page_table s) \<and>
      set (list_frame_id (replacer s')) \<subseteq>
        set (list_frame_id (replacer s)) \<union> snd ` set (page_table s) \<and>
      snd ` set (page_table s') \<subseteq>
        snd ` set (page_table s) \<union> set (list_frame_id (replacer s)) \<union> set (free_list s))"

section \<open>The LRU replacer\<close>

lemma Unpin_loop_below:
  "length xs < m \<Longrightarrow> Unpin_loop m xs mp = Inr (xs, mp)"
  by (cases xs) simp_all

lemma Unpin_fresh:
  "map_frame_id r f = None \<Longrightarrow> Size r < maxLen r \<Longrightarrow>
     Unpin r f = Inr (r\<lparr>list_frame_id := f # list_frame_id r,
                        map_frame_id := (map_frame_id r)(f \<mapsto> f)\<rparr>)"
  by (simp add: Unpin_def Size_def Unpin_loop_below)

text \<open>With a capacity above zero the loop of \<^verbatim>\<open>Unpin\<close> ends and \<^verbatim>\<open>Unpin\<close> returns.\<close>

lemma Unpin_loop_returns:
  "0 < m \<Longrightarrow> \<exists>xs' mp'. Unpin_loop m xs mp = Inr (xs', mp')"
  by (induction xs arbitrary: mp) auto

lemma Unpin_returns:
  "0 < maxLen r \<Longrightarrow> \<exists>r'. Unpin r f = Inr r'"
  using Unpin_loop_returns [of "maxLen r" "list_frame_id r" "map_frame_id r"]
  by (auto simp: Unpin_def)

text \<open>
  Claim C6, as amended. For an LRU replacer that tracks no frame (as after construction)
  and has capacity at least three: after \<^verbatim>\<open>Unpin(a)\<close>, \<^verbatim>\<open>Unpin(b)\<close>, \<^verbatim>\<open>Unpin(c)\<close>
  of three distinct frame ids, with no \<^verbatim>\<open>Pin\<close> in between, three successive
  \<^verbatim>\<open>Victim\<close> calls return \<open>a\<close>, then \<open>b\<close>, then \<open>c\<close>.
\<close>

theorem Unpin3_Victim3_order:
  assumes "list_frame_id r = []" and "map_frame_id r = Map.empty" and "3 \<le> maxLen r"
    and "a \<noteq> b" and "a \<noteq> c" and "b \<noteq> c"
  shows "unpin3_victim3 r a b c = Inr (Some a, Some b, Some c)"
proof -
  let ?r1 = "r\<lparr>list_frame_id := [a], map_frame_id := [a \<mapsto> a]\<rparr>"
  let ?r2 = "r\<lparr>list_frame_id := [b, a], map_frame_id := [a \<mapsto> a, b \<mapsto> b]\<rparr>"
  let ?r3 = "r\<lparr>list_frame_id := [c, b, a], map_frame_id := [a \<mapsto> a, b \<mapsto> b, c \<mapsto> c]\<rparr>"
  have u1: "Unpin r a = Inr ?r1"
    using assms by (simp add: Unpin_fresh Size_def)
  have u2: "Unpin ?r1 b = Inr ?r2"
    using assms by (simp add: Unpin_fresh Size_def)
  have u3: "Unpin ?r2 c = Inr ?r3"
    using assms by (simp add: Unpin_fresh Size_def)
  show ?thesis
    by (simp add: unpin3_victim3_def u1 u2 u3 Victim_def)
qed

theorem Unpin3_Victim3_order_witness:
  "list_frame_id (LRUReplacer_init 3) = [] \<and> 3 \<le> maxLen (LRUReplacer_init 3) \<and>
   unpin3_victim3 (LRUReplacer_init 3) 0 1 2 = Inr (Some 0, Some 1, Some 2)"
  using Unpin3_Victim3_order [of "LRUReplacer_init 3" 0 1 2]
  by (simp add: LRUReplacer_init_def)

text \<open>
  Claim C6 as stated is false for a capacity below three: \<^verbatim>\<open>Unpin\<close> on a replacer at
  capacity first drops entries from the front of the list, the most recently unpinned
  ones. With capacity two, \<^verbatim>\<open>Unpin(3)\<close> drops frame 2, and the victims are 1, 3 and
  then none.
\<close>

theorem Unpin3_Victim3_capacity_2:
  "unpin3_victim3 (LRUReplacer_init 2) 1 2 3 = Inr (Some 1, Some 3, None)"
  by (simp add: unpin3_victim3_def Unpin_def Victim_def LRUReplacer_init_def)

text \<open>What the replacer's operations do to the frames it tracks and to its capacity.\<close>

lemma Unpin_loop_subset:
  "Unpin_loop m xs mp = Inr (xs', mp') \<Longrightarrow> set xs' \<subseteq> set xs"
  by (induction xs arbitrary: mp) (auto split: if_splits)

lemma Unpin_tracks:
  assumes "Unpin r f = Inr r'"
  shows "set (list_frame_id r') \<subseteq> insert f (set (list_frame_id r)) \<and> maxLen r' = maxLen r"
proof (cases "map_frame_id r f")
  case (Some it)
  with assms show ?thesis
    by (auto simp: Unpin_def)
next
  case None
  with assms obtain xs mp where
    l: "Unpin_loop (maxLen r) (list_frame_id r) (map_frame_id r) = Inr (xs, mp)"
    and r': "r' = r\<lparr>list_frame_id := f # xs, map_frame_id := mp(f \<mapsto> f)\<rparr>"
    by (auto simp: Unpin_def split: sum.splits)
  from Unpin_loop_subset [OF l] r' show ?thesis
    by auto
qed

lemma Pin_tracks:
  "set (list_frame_id (Pin r f)) \<subseteq> set (list_frame_id r) \<and> maxLen (Pin r f) = maxLen r"
  using set_remove1_subset by (fastforce simp: Pin_def split: option.splits)

lemma Victim_Some:
  "Victim r = (Some f, r') \<Longrightarrow>
     f \<in> set (list_frame_id r) \<and> set (list_frame_id r') \<subseteq> set (list_frame_id r) \<and>
     maxLen r' = maxLen r"
  by (auto simp: Victim_def Let_def split: if_splits dest: in_set_butlastD)

lemma Victim_None: "Victim r = (None, r') \<Longrightarrow> r' = r"
  by (auto simp: Victim_def Let_def split: if_splits)

section \<open>Frame ids stay inside the pool\<close>

lemma snd_set_delete: "snd ` set (AList.delete k pt) \<subseteq> snd ` set pt"
  by (induction pt) auto

lemma snd_set_update: "snd ` set (AList.update k v pt) \<subseteq> insert v (snd ` set pt)"
  by (induction pt) auto

lemma snd_set_insert: "snd ` set (page_table_insert pt k v) \<subseteq> insert v (snd ` set pt)"
  by (auto simp: page_table_insert_def split: option.splits)

lemma map_of_snd: "map_of pt k = Some f \<Longrightarrow> f \<in> snd ` set pt"
  by (metis image_eqI map_of_SomeD snd_conv)

lemma static_cast_int_small: "i < 2 ^ 31 \<Longrightarrow> static_cast_int i = int i"
proof -
  assume "i < 2 ^ 31"
  then have "int i < 2 ^ 31" by (metis of_nat_less_iff of_nat_numeral of_nat_power)
  then show ?thesis
    by (simp add: static_cast_int_def signed_of_nat signed_take_bit_int_eq_self)
qed

lemma set_tl_within: "set (tl xs) \<subseteq> set xs"
  by (cases xs) auto

lemma wf_pool_init:
  assumes "n < 2 ^ 31"
  shows "wf_pool (BufferPoolManager_init n PAGE_SIZE dm)"
proof -
  have "frame_in_pool (BufferPoolManager_init n PAGE_SIZE dm) (static_cast_int i)" if "i < n" for i
    using that assms by (simp add: static_cast_int_small frame_in_pool_def BufferPoolManager_init_def)
  then show ?thesis
    by (auto simp: wf_pool_def pool_frames_def BufferPoolManager_init_def LRUReplacer_init_def)
qed

lemma FetchPageImpl_install_effects:
  "latch (FetchPageImpl_install s pid f) = latch s \<and>
   length (pages (FetchPageImpl_install s pid f)) = length (pages s) \<and>
   pool_size (FetchPageImpl_install s pid f) = pool_size s \<and>
   maxLen (replacer (FetchPageImpl_install s pid f)) = maxLen (replacer s) \<and>
   free_list (FetchPageImpl_install s pid f) = free_list s \<and>
   set (list_frame_id (replacer (FetchPageImpl_install s pid f))) \<subseteq> set (list_frame_id (replacer s)) \<and>
   snd ` set (page_table (FetchPageImpl_install s pid f)) \<subseteq> insert f (snd ` set (page_table s))"
proof -
  have a: "snd ` set (AList.update pid f (AList.delete k (page_table s))) \<subseteq> insert f (snd ` set (page_table s))" for k
    using snd_set_update [of pid f "AList.delete k (page_table s)"] snd_set_delete [of k "page_table s"]
    by blast
  show ?thesis
    using Pin_tracks [of "replacer s" f] a snd_set_update [of pid f "page_table s"]
    by (simp add: FetchPageImpl_install_def Let_def ReadPage_def split_def)
qed

lemma FetchPageImpl_effects:
  assumes "FetchPageImpl s pid = Inr (r, s')"
  shows "\<not> latch s' \<and> length (pages s') = length (pages s) \<and> pool_size s' = pool_size s \<and>
     maxLen (replacer s') = maxLen (replacer s) \<and>
     set (free_list s') \<subseteq> set (free_list s) \<and>
     set (list_frame_id (replacer s')) \<subseteq> set (list_frame_id (replacer s)) \<and>
     snd ` set (page_table s') \<subseteq> snd ` set (page_table s) \<union> set (list_frame_id (replacer s))"
proof (cases "map_of (page_table s) pid")
  case (Some f)
  with assms have "s' = s\<lparr>replacer := Pin (replacer s) f,
      pages := (pages s)[nat f := (pages s ! nat f)\<lparr>pin_count := pin_count (pages s ! nat f) + 1\<rparr>],
      latch := False\<rparr>"
    by (auto simp: FetchPageImpl_def Let_def split: if_splits)
  with Pin_tracks [of "replacer s" f] show ?thesis
    by simp
next
  case None
  note n = this
  show ?thesis
  proof (cases "free_list s = []")
    case False
    with assms n have "s' = s\<lparr>free_list := tl (free_list s), latch := False\<rparr>"
      by (auto simp: FetchPageImpl_def Let_def split: if_splits)
    with set_tl_within [of "free_list s"] show ?thesis
      by simp
  next
    case True
    obtain v r1 where vr: "Victim (replacer s) = (v, r1)"
      by (cases "Victim (replacer s)")
    show ?thesis
    proof (cases v)
      case None
      with vr Victim_None have "r1 = replacer s" by auto
      with assms n True vr None have "s' = s\<lparr>latch := False\<rparr>"
        by (auto simp: FetchPageImpl_def Let_def split: if_splits)
      then show ?thesis by simp
    next
      case (Some f)
      with vr Victim_Some [of "replacer s" f r1] have
        v: "f \<in> set (list_frame_id (replacer s))"
           "set (list_frame_id r1) \<subseteq> set (list_frame_id (replacer s))"
           "maxLen r1 = maxLen (replacer s)" by auto
      have s': "s' = (FetchPageImpl_install (s\<lparr>latch := True, replacer := r1\<rparr>) pid f)\<lparr>latch := False\<rparr>"
        using assms n True vr Some
        by (auto simp: FetchPageImpl_def Let_def split: if_splits)
      from FetchPageImpl_install_effects [of "s\<lparr>latch := True, replacer := r1\<rparr>" pid f] v
      show ?thesis
        unfolding s' by auto
    qed
  qed
qed

lemma frames_kept_wf_pool:
  assumes "wf_pool s" and "frames_kept s s'"
  shows "wf_pool s'"
proof -
  from assms(2) have pf: "pool_frames s' = pool_frames s"
    by (simp add: frames_kept_def pool_frames_def frame_in_pool_def)
  from assms have a: "\<not> latch s'" "length (pages s') = pool_size s'"
      "maxLen (replacer s') = pool_size s'"
    by (simp_all add: wf_pool_def frames_kept_def)
  from assms(1) have w: "set (free_list s) \<subseteq> pool_frames s"
      "snd ` set (page_table s) \<subseteq> pool_frames s"
      "set (list_frame_id (replacer s)) \<subseteq> pool_frames s"
    by (simp_all add: wf_pool_def)
  from assms(2) have k:
      "set (free_list s') \<subseteq> set (free_list s) \<union> snd ` set (page_table s)"
      "set (list_frame_id (replacer s')) \<subseteq>
         set (list_frame_id (replacer s)) \<union> snd ` set (page_table s)"
      "snd ` set (page_table s') \<subseteq>
         snd ` set (page_table s) \<union> set (list_frame_id (replacer s)) \<union> set (free_list s)"
    by (simp_all add: frames_kept_def)
  from w k(1) have b: "set (free_list s') \<subseteq> pool_frames s'"
    unfolding pf by blast
  from w k(2) have c: "set (list_frame_id (replacer s')) \<subseteq> pool_frames s'"
    unfolding pf by blast
  from w k(3) have d: "snd ` set (page_table s') \<subseteq> pool_frames s'"
    unfolding pf by blast
  from a b c d show ?thesis
    by (simp add: wf_pool_def)
qed

lemma FetchPageImpl_frames_kept:
  "FetchPageImpl s pid = Inr (r, s') \<Longrightarrow> frames_kept s s'"
  using FetchPageImpl_effects [of s pid r s'] unfolding frames_kept_def by blast

lemma UnpinPageImpl_frames_kept:
  assumes "UnpinPageImpl s pid dirty = Inr (b, s')"
  shows "frames_kept s s'"
proof (cases "map_of (page_table s) pid")
  case None
  with assms have "s' = s\<lparr>latch := False\<rparr>"
    by (auto simp: UnpinPageImpl_def Let_def split: if_splits)
  then show ?thesis
    by (auto simp: frames_kept_def)
next
  case (Some f)
  define s1 where "s1 = (if dirty then
      s\<lparr>latch := True, pages := (pages s)[nat f := (pages s ! nat f)\<lparr>is_dirty := True\<rparr>]\<rparr>
    else s\<lparr>latch := True\<rparr>)"
  define s2 where "s2 = s1\<lparr>pages := (pages s1)[nat f :=
      (pages s1 ! nat f)\<lparr>pin_count := pin_count (pages s1 ! nat f) - 1\<rparr>]\<rparr>"
  have k1: "length (pages s1) = length (pages s) \<and> pool_size s1 = pool_size s \<and>
      replacer s1 = replacer s \<and> free_list s1 = free_list s \<and> page_table s1 = page_table s"
    by (simp add: s1_def)
  then have k2: "length (pages s2) = length (pages s) \<and> pool_size s2 = pool_size s \<and>
      replacer s2 = replacer s \<and> free_list s2 = free_list s \<and> page_table s2 = page_table s"
    by (simp add: s2_def)
  from assms Some consider
      "s' = s1\<lparr>latch := False\<rparr>"
    | "s' = s2\<lparr>latch := False\<rparr>"
    | r where "Unpin (replacer s2) f = Inr r" "s' = s2\<lparr>replacer := r, latch := False\<rparr>"
    by (auto simp: UnpinPageImpl_def Let_def s1_def s2_def split: if_splits sum.splits)
  then show ?thesis
  proof cases
    case 1
    with k1 show ?thesis by (auto simp: frames_kept_def)
  next
    case 2
    with k2 show ?thesis by (auto simp: frames_kept_def)
  next
    case 3
    from Unpin_tracks [OF 3(1)] k2 map_of_snd [OF Some] 3(2) show ?thesis
      by (auto simp: frames_kept_def)
  qed
qed

lemma FlushPageImpl_frames_kept:
  assumes "FlushPageImpl s pid = Inr (b, s')"
  shows "frames_kept s s'"
proof -
  from assms have "\<not> latch s' \<and> pages s' = pages s \<and> pool_size s' = pool_size s \<and>
      replacer s' = replacer s \<and> free_list s' = free_list s \<and> page_table s' = page_table s"
    by (auto simp: FlushPageImpl_def Let_def split: if_splits option.splits)
  then show ?thesis
    by (auto simp: frames_kept_def)
qed

lemma FlushAllPagesImpl_frames_kept:
  assumes "FlushAllPagesImpl s = Inr s'"
  shows "frames_kept s s'"
proof -
  from assms have "\<not> latch s' \<and> pages s' = pages s \<and> pool_size s' = pool_size s \<and>
      replacer s' = replacer s \<and> free_list s' = free_list s \<and> page_table s' = page_table s"
    by (auto simp: FlushAllPagesImpl_def split: if_splits sum.splits)
  then show ?thesis
    by (auto simp: frames_kept_def)
qed

lemma FetchPageImpl_latched: "latch s \<Longrightarrow> FetchPageImpl s pid = Inl Deadlock"
  by (simp add: FetchPageImpl_def)

lemma DeletePageImpl_frames_kept:
  assumes "DeletePageImpl s pid = Inr (b, s')"
  shows "frames_kept s s'"
proof (cases "map_of (page_table s) pid")
  case None
  with assms have "s' = s\<lparr>latch := False\<rparr>"
    by (auto simp: DeletePageImpl_def Let_def split: if_splits)
  then show ?thesis
    by (auto simp: frames_kept_def)
next
  case (Some f)
  have dl: "FetchPageImpl (s\<lparr>latch := True\<rparr>) pid = Inl Deadlock"
    by (simp add: FetchPageImpl_latched)
  from assms Some dl consider
      "s' = s\<lparr>latch := False\<rparr>"
    | pgs dm where "s' = s\<lparr>latch := True, disk_manager := dm,
         pages := (pages s)[nat f := pgs], page_table := AList.delete pid (page_table s),
         free_list := free_list s @ [f], latch := False\<rparr>"
    by (auto simp: DeletePageImpl_def Let_def split: if_splits)
  then show ?thesis
  proof cases
    case 1
    then show ?thesis by (auto simp: frames_kept_def)
  next
    case 2
    with snd_set_delete [of pid "page_table s"] map_of_snd [OF Some] show ?thesis
      by (auto simp: frames_kept_def)
  qed
qed


lemma NewPageImpl_frame_effects:
  assumes "NewPageImpl_frame s = Inr (f, s1)"
  shows "latch s1 = latch s \<and> length (pages s1) = length (pages s) \<and>
     pool_size s1 = pool_size s \<and> maxLen (replacer s1) = maxLen (replacer s) \<and>
     set (free_list s1) \<subseteq> set (free_list s) \<and>
     set (list_frame_id (replacer s1)) \<subseteq> set (list_frame_id (replacer s)) \<and>
     snd ` set (page_table s1) \<subseteq> snd ` set (page_table s) \<and>
     (f = - 1 \<or> f \<in> set (free_list s) \<union> set (list_frame_id (replacer s)))"
proof (cases "free_list s = []")
  case False
  with assms have "f = hd (free_list s)" "s1 = s\<lparr>free_list := tl (free_list s)\<rparr>"
    by (auto simp: NewPageImpl_frame_def)
  with False set_tl_within [of "free_list s"] show ?thesis
    by simp
next
  case True
  obtain v r1 where vr: "Victim (replacer s) = (v, r1)"
    by (cases "Victim (replacer s)")
  show ?thesis
  proof (cases v)
    case None
    with vr Victim_None have "r1 = replacer s" by auto
    with assms True vr None show ?thesis
      by (auto simp: NewPageImpl_frame_def)
  next
    case (Some g)
    with vr Victim_Some [of "replacer s" g r1] have
      v: "g \<in> set (list_frame_id (replacer s))"
         "set (list_frame_id r1) \<subseteq> set (list_frame_id (replacer s))"
         "maxLen r1 = maxLen (replacer s)" by auto
    from assms True vr Some have fg: "f = g"
      by (auto simp: NewPageImpl_frame_def Let_def split: if_splits)
    from assms True vr Some obtain k where
      k: "latch s1 = latch s" "length (pages s1) = length (pages s)"
        "pool_size s1 = pool_size s" "replacer s1 = r1" "free_list s1 = free_list s"
        "page_table s1 = AList.delete k (page_table s)"
      by (auto simp: NewPageImpl_frame_def Let_def split: if_splits)
    from k v fg snd_set_delete [of k "page_table s"] show ?thesis
      by simp
  qed
qed

lemma NewPageImpl_frames_kept:
  assumes "NewPageImpl s = Inr (r, s')"
  shows "frames_kept s s'"
proof -
  obtain tmp_page_id dm where al: "AllocatePage (disk_manager s) = (tmp_page_id, dm)"
    by (cases "AllocatePage (disk_manager s)")
  define sa where "sa = s\<lparr>latch := True, disk_manager := dm\<rparr>"
  from assms al obtain f s1 where fr: "NewPageImpl_frame sa = Inr (f, s1)"
    by (auto simp: NewPageImpl_def sa_def split: if_splits sum.splits)
  note e = NewPageImpl_frame_effects [OF fr]
  from assms al fr consider
      "s' = s1\<lparr>latch := False\<rparr>"
    | pg dm' where "f \<noteq> - 1" "s' = s1\<lparr>pages := (pages s1)[nat f := pg], disk_manager := dm',
        page_table := page_table_insert (page_table s1) tmp_page_id f, latch := False\<rparr>"
    by (auto simp: NewPageImpl_def sa_def Let_def split: if_splits)
  then show ?thesis
  proof cases
    case 1
    with e show ?thesis
      by (auto simp: frames_kept_def sa_def)
  next
    case 2
    note i = snd_set_insert [of "page_table s1" tmp_page_id f]
    from e have e1: "length (pages s1) = length (pages s)" "pool_size s1 = pool_size s"
        "maxLen (replacer s1) = maxLen (replacer s)"
      by (simp_all add: sa_def)
    from e have e2: "set (free_list s1) \<subseteq> set (free_list s)"
        "set (list_frame_id (replacer s1)) \<subseteq> set (list_frame_id (replacer s))"
        "snd ` set (page_table s1) \<subseteq> snd ` set (page_table s)"
      by (simp_all add: sa_def)
    from e 2(1) have e3: "f \<in> set (free_list s) \<union> set (list_frame_id (replacer s))"
      by (simp add: sa_def)
    from i e2(3) e3 have pt: "snd ` set (page_table_insert (page_table s1) tmp_page_id f) \<subseteq>
        snd ` set (page_table s) \<union> set (list_frame_id (replacer s)) \<union> set (free_list s)"
      by blast
    from e2(1) have fl: "set (free_list s1) \<subseteq> set (free_list s) \<union> snd ` set (page_table s)"
      by blast
    from e2(2) have rl: "set (list_frame_id (replacer s1)) \<subseteq>
        set (list_frame_id (replacer s)) \<union> snd ` set (page_table s)"
      by blast
    from e1 pt fl rl show ?thesis
      by (simp add: frames_kept_def 2(2))
  qed
qed

lemma frames_kept_step:
  assumes "frames_kept s s'" and "pool_size s < 2 ^ 31 \<Longrightarrow> wf_pool s"
    and "pool_size s' < 2 ^ 31"
  shows "wf_pool s'"
proof -
  from assms(1) have "pool_size s' = pool_size s"
    by (simp add: frames_kept_def)
  with assms(2,3) have "wf_pool s"
    by simp
  then show ?thesis
    using assms(1) by (rule frames_kept_wf_pool)
qed

lemma reachable_wf_pool:
  assumes "reachable s" and "pool_size s < 2 ^ 31"
  shows "wf_pool s"
  using assms
proof (induction rule: reachable.induct)
  case (reachable_init n PAGE_SIZE dm)
  then have "n < 2 ^ 31"
    by (simp add: BufferPoolManager_init_def)
  then show ?case
    by (rule wf_pool_init)
next
  case (reachable_fetch s pid r s')
  from FetchPageImpl_frames_kept [OF reachable_fetch.hyps(2)] reachable_fetch.IH
    reachable_fetch.prems
  show ?case by (rule frames_kept_step)
next
  case (reachable_new s r' s')
  from NewPageImpl_frames_kept [OF reachable_new.hyps(2)] reachable_new.IH
    reachable_new.prems
  show ?case by (rule frames_kept_step)
next
  case (reachable_unpin s pid dirty b s')
  from UnpinPageImpl_frames_kept [OF reachable_unpin.hyps(2)] reachable_unpin.IH
    reachable_unpin.prems
  show ?case by (rule frames_kept_step)
next
  case (reachable_flush s pid b s')
  from FlushPageImpl_frames_kept [OF reachable_flush.hyps(2)] reachable_flush.IH
    reachable_flush.prems
  show ?case by (rule frames_kept_step)
next
  case (reachable_flush_all s s')
  from FlushAllPagesImpl_frames_kept [OF reachable_flush_all.hyps(2)] reachable_flush_all.IH
    reachable_flush_all.prems
  show ?case by (rule frames_kept_step)
next
  case (reachable_delete s pid b s')
  from DeletePageImpl_frames_kept [OF reachable_delete.hyps(2)] reachable_delete.IH
    reachable_delete.prems
  show ?case by (rule frames_kept_step)
qed

text \<open>
  So in every state reached from a pool of fewer than \<open>2 ^ 31\<close> frames the latch is
  free between calls, every frame of the page table is inside \<^verbatim>\<open>pages_\<close>, and the
  replacer's capacity is not zero when a page is resident: the hypotheses of the
  theorems below hold there.
\<close>

lemma reachable_hypotheses:
  assumes "reachable s" and "pool_size s < 2 ^ 31"
  shows "\<not> latch s"
    and "map_of (page_table s) pid = Some f \<Longrightarrow> frame_in_pool s f \<and> 0 < maxLen (replacer s)"
proof -
  note wf = reachable_wf_pool [OF assms]
  then show "\<not> latch s"
    by (simp add: wf_pool_def)
  assume "map_of (page_table s) pid = Some f"
  from map_of_snd [OF this] have "f \<in> snd ` set (page_table s)" .
  moreover from wf have "snd ` set (page_table s) \<subseteq> pool_frames s"
    by (simp add: wf_pool_def)
  ultimately have "f \<in> pool_frames s"
    by blast
  then have fp: "frame_in_pool s f"
    by (simp add: pool_frames_def)
  moreover from wf have "maxLen (replacer s) = length (pages s)"
    by (simp add: wf_pool_def)
  ultimately show "frame_in_pool s f \<and> 0 < maxLen (replacer s)"
    by (auto simp: frame_in_pool_def)
qed

section \<open>A run on a pool of one frame\<close>

lemmas pool1_defs = pool1_def pool1_pinned_def pool1_unpinned_def pool1_evicted_def
  BufferPoolManager_init_def DiskManager_init_def LRUReplacer_init_def Page_init_def
  static_cast_int_def frame_in_pool_def

lemma pool1_NewPageImpl: "NewPageImpl pool1 = Inr (Some (0, 0), pool1_pinned)"
  by (simp add: pool1_defs NewPageImpl_def NewPageImpl_frame_def AllocatePage_def WritePage_def
      page_table_insert_def upt_rec)

lemma pool1_pinned_UnpinPageImpl: "UnpinPageImpl pool1_pinned 0 False = Inr (True, pool1_unpinned)"
  by (simp add: pool1_defs UnpinPageImpl_def Unpin_def)

lemma pool1_unpinned_NewPageImpl: "NewPageImpl pool1_unpinned = Inr (Some (0, 1), pool1_evicted)"
  by (simp add: pool1_defs NewPageImpl_def NewPageImpl_frame_def AllocatePage_def WritePage_def
      page_table_insert_def Victim_def ResetMemory_def INVALID_PAGE_ID_def)

lemma reachable_pool1: "reachable pool1"
  unfolding pool1_def by (rule reachable_init)

lemma reachable_pool1_pinned: "reachable pool1_pinned"
  using reachable_pool1 pool1_NewPageImpl by (rule reachable_new)

lemma reachable_pool1_unpinned: "reachable pool1_unpinned"
  using reachable_pool1_pinned pool1_pinned_UnpinPageImpl by (rule reachable_unpin)

lemma reachable_pool1_evicted: "reachable pool1_evicted"
  using reachable_pool1_unpinned pool1_unpinned_NewPageImpl by (rule reachable_new)

section \<open>FetchPageImpl\<close>

text \<open>
  Claim C7. A fetch of a page that is in the page table at frame \<open>f\<close> calls
  \<^verbatim>\<open>replacer_->Pin(f)\<close>, adds one to the pin count of frame \<open>f\<close> and returns that
  frame. The disk manager is as before, its record of calls included, so nothing was read
  or written. The other fields of frame \<open>f\<close>, every other frame, the page table and the
  free list are unchanged.
\<close>

theorem FetchPageImpl_hit:
  assumes "\<not> latch s" and "map_of (page_table s) pid = Some f" and "frame_in_pool s f"
  shows "\<exists>s'. FetchPageImpl s pid = Inr (Some f, s') \<and>
           replacer s' = Pin (replacer s) f \<and>
           pin_count (pages s' ! nat f) = pin_count (pages s ! nat f) + 1 \<and>
           page_id (pages s' ! nat f) = page_id (pages s ! nat f) \<and>
           data (pages s' ! nat f) = data (pages s ! nat f) \<and>
           is_dirty (pages s' ! nat f) = is_dirty (pages s ! nat f) \<and>
           length (pages s') = length (pages s) \<and>
           (\<forall>g. g \<noteq> nat f \<longrightarrow> pages s' ! g = pages s ! g) \<and>
           page_table s' = page_table s \<and>
           free_list s' = free_list s \<and>
           disk_manager s' = disk_manager s \<and>
           pool_size s' = pool_size s \<and>
           latch s' = latch s"
  using assms by (simp add: FetchPageImpl_def frame_in_pool_def)

theorem FetchPageImpl_hit_witness:
  "\<not> latch pool1_pinned \<and> map_of (page_table pool1_pinned) 0 = Some 0 \<and>
   frame_in_pool pool1_pinned 0 \<and>
   (\<exists>s'. FetchPageImpl pool1_pinned 0 = Inr (Some 0, s') \<and>
      pin_count (pages s' ! 0) = 2 \<and> disk_manager s' = disk_manager pool1_pinned)"
proof -
  have h: "\<not> latch pool1_pinned" "map_of (page_table pool1_pinned) 0 = Some 0"
    "frame_in_pool pool1_pinned 0"
    by (simp_all add: pool1_defs)
  from FetchPageImpl_hit [OF h] obtain s' where
    e: "FetchPageImpl pool1_pinned 0 = Inr (Some 0, s')"
      "pin_count (pages s' ! nat 0) = pin_count (pages pool1_pinned ! nat 0) + 1"
      "disk_manager s' = disk_manager pool1_pinned"
    by blast
  have "pin_count (pages pool1_pinned ! nat 0) = 1"
    by (simp add: pool1_defs)
  with e(2) have "pin_count (pages s' ! 0) = 2"
    by simp
  with h e(1,3) show ?thesis
    by blast
qed

text \<open>
  A fetch of a page that is not resident, while the free list has a frame: the front
  frame leaves the free list and the call returns \<^verbatim>\<open>nullptr\<close>. The block that installs
  the page (lines 59 to 83) is inside the branch of the empty free list.
\<close>

lemma FetchPageImpl_miss_free_list:
  "\<not> latch s \<Longrightarrow> map_of (page_table s) pid = None \<Longrightarrow> free_list s \<noteq> [] \<Longrightarrow>
     FetchPageImpl s pid = Inr (None, s\<lparr>free_list := tl (free_list s)\<rparr>)"
  by (simp add: FetchPageImpl_def)

text \<open>
  Claim C1 fails on the code. The claim: a fetch of a page that is not in the page table,
  with a non-empty free list, installs the page in the front frame of the free list, reads
  it from disk and returns that frame. On the new pool of one frame, where the page table
  is empty and the free list is \<open>[0]\<close>, \<^verbatim>\<open>FetchPageImpl(5)\<close> returns \<^verbatim>\<open>nullptr\<close>;
  frame 0 has left the free list, the page table is still empty, frame 0 is untouched and
  the disk manager has received no call.
\<close>

theorem FetchPageImpl_drops_free_frame:
  "page_table pool1 = [] \<and> free_list pool1 = [0] \<and>
   FetchPageImpl pool1 5 = Inr (None, pool1\<lparr>free_list := []\<rparr>)"
  using FetchPageImpl_miss_free_list [of pool1 5]
  by (simp add: pool1_defs upt_rec)

text \<open>
  Claim C9, as amended. \<^verbatim>\<open>FetchPageImpl\<close> has no test for \<^verbatim>\<open>INVALID_PAGE_ID\<close>; the
  id is handled as any other. When it is not in the page table, the free list is empty
  and the replacer tracks no frame, the call returns \<^verbatim>\<open>nullptr\<close> and the whole state
  is as before.
\<close>

theorem FetchPageImpl_INVALID_no_victim:
  assumes "\<not> latch s" and "map_of (page_table s) INVALID_PAGE_ID = None"
    and "free_list s = []" and "list_frame_id (replacer s) = []"
  shows "FetchPageImpl s INVALID_PAGE_ID = Inr (None, s)"
  using assms by (simp add: FetchPageImpl_def Victim_def)

theorem FetchPageImpl_INVALID_no_victim_witness:
  "\<not> latch pool1_pinned \<and> map_of (page_table pool1_pinned) INVALID_PAGE_ID = None \<and>
   free_list pool1_pinned = [] \<and> list_frame_id (replacer pool1_pinned) = [] \<and>
   FetchPageImpl pool1_pinned INVALID_PAGE_ID = Inr (None, pool1_pinned)"
  using FetchPageImpl_INVALID_no_victim [of pool1_pinned]
  by (simp add: pool1_defs INVALID_PAGE_ID_def)

text \<open>
  Claim C9 as stated is false. After \<^verbatim>\<open>NewPage\<close> and \<^verbatim>\<open>UnpinPage(0, false)\<close> on the
  pool of one frame, the free list is empty and the replacer holds frame 0. Then
  \<^verbatim>\<open>FetchPageImpl(INVALID_PAGE_ID)\<close> evicts page 0, reads the invalid id from disk into
  frame 0, enters it in the page table and returns frame 0, pinned.
\<close>

theorem FetchPageImpl_INVALID_installed:
  "reachable pool1_unpinned \<and>
   FetchPageImpl pool1_unpinned INVALID_PAGE_ID =
     Inr (Some 0,
          pool1_unpinned
            \<lparr>pages := [\<lparr>data = replicate 4096 0, page_id = INVALID_PAGE_ID, pin_count = 1,
                        is_dirty = False\<rparr>],
             page_table := [(INVALID_PAGE_ID, 0)],
             replacer := \<lparr>list_frame_id = [], map_frame_id = [0 \<mapsto> 0](0 := None), maxLen = 1\<rparr>,
             disk_manager := snd (ReadPage (disk_manager pool1_unpinned) INVALID_PAGE_ID)\<rparr>)"
proof
  show "reachable pool1_unpinned"
    by (rule reachable_pool1_unpinned)
  show "FetchPageImpl pool1_unpinned INVALID_PAGE_ID =
     Inr (Some 0,
          pool1_unpinned
            \<lparr>pages := [\<lparr>data = replicate 4096 0, page_id = INVALID_PAGE_ID, pin_count = 1,
                        is_dirty = False\<rparr>],
             page_table := [(INVALID_PAGE_ID, 0)],
             replacer := \<lparr>list_frame_id = [], map_frame_id = [0 \<mapsto> 0](0 := None), maxLen = 1\<rparr>,
             disk_manager := snd (ReadPage (disk_manager pool1_unpinned) INVALID_PAGE_ID)\<rparr>)"
    by (simp add: pool1_defs FetchPageImpl_def FetchPageImpl_install_def Victim_def Pin_def
        ReadPage_def INVALID_PAGE_ID_def)
qed

section \<open>Invariant I4\<close>

lemma I4_pool1: "I4 pool1"
  by (simp add: I4_def pool1_defs upt_rec)

text \<open>
  Claim C2 fails on the code. The claim: in every reachable state, a frame whose page id
  is invalid is in the free list (unpinned and clean), and every frame of the free list has
  the invalid page id. The new pool of one frame satisfies I4. After \<^verbatim>\<open>FetchPageImpl(5)\<close>
  there, a reachable state, frame 0 still has the invalid page id and is in no free list.
\<close>

theorem I4_broken_by_FetchPageImpl:
  "reachable (pool1\<lparr>free_list := []\<rparr>) \<and> \<not> I4 (pool1\<lparr>free_list := []\<rparr>)"
proof
  have "FetchPageImpl pool1 5 = Inr (None, pool1\<lparr>free_list := []\<rparr>)"
    using FetchPageImpl_miss_free_list [of pool1 5]
    by (simp add: pool1_defs upt_rec)
  with reachable_pool1 show "reachable (pool1\<lparr>free_list := []\<rparr>)"
    by (rule reachable_fetch)
  show "\<not> I4 (pool1\<lparr>free_list := []\<rparr>)"
    by (simp add: I4_def pool1_defs)
qed

section \<open>UnpinPageImpl\<close>

text \<open>
  Claim C8. \<^verbatim>\<open>UnpinPageImpl(p, d)\<close> returns \<^verbatim>\<open>false\<close> (and changes nothing) when
  \<open>p\<close> is not in the page table. Otherwise the frame is dirty afterwards exactly when
  \<open>d\<close> holds or it was dirty before; if its pin count was 0 the call returns
  \<^verbatim>\<open>false\<close> with the count and the replacer as before; if not, the call returns
  \<^verbatim>\<open>true\<close>, the count is one less, and the replacer is the result of
  \<^verbatim>\<open>Unpin\<close> on the frame when the count reached 0 and is unchanged when it did not.
\<close>

theorem UnpinPageImpl_spec:
  assumes "\<not> latch s"
  shows "(map_of (page_table s) pid = None \<longrightarrow> UnpinPageImpl s pid dirty = Inr (False, s)) \<and>
         (\<forall>f. map_of (page_table s) pid = Some f \<and> frame_in_pool s f \<and> 0 < maxLen (replacer s) \<longrightarrow>
            (\<exists>b s'. UnpinPageImpl s pid dirty = Inr (b, s') \<and>
               is_dirty (pages s' ! nat f) = (dirty \<or> is_dirty (pages s ! nat f)) \<and>
               (if pin_count (pages s ! nat f) = 0
                then \<not> b \<and> pin_count (pages s' ! nat f) = 0 \<and> replacer s' = replacer s
                else b \<and> pin_count (pages s' ! nat f) = pin_count (pages s ! nat f) - 1 \<and>
                     (if pin_count (pages s ! nat f) - 1 = 0
                      then Unpin (replacer s) f = Inr (replacer s')
                      else replacer s' = replacer s))))"
proof (intro conjI allI impI)
  assume "map_of (page_table s) pid = None"
  with assms show "UnpinPageImpl s pid dirty = Inr (False, s)"
    by (simp add: UnpinPageImpl_def)
next
  fix f
  assume h: "map_of (page_table s) pid = Some f \<and> frame_in_pool s f \<and> 0 < maxLen (replacer s)"
  then obtain r' where r': "Unpin (replacer s) f = Inr r'"
    using Unpin_returns by blast
  from assms h r' show "\<exists>b s'. UnpinPageImpl s pid dirty = Inr (b, s') \<and>
               is_dirty (pages s' ! nat f) = (dirty \<or> is_dirty (pages s ! nat f)) \<and>
               (if pin_count (pages s ! nat f) = 0
                then \<not> b \<and> pin_count (pages s' ! nat f) = 0 \<and> replacer s' = replacer s
                else b \<and> pin_count (pages s' ! nat f) = pin_count (pages s ! nat f) - 1 \<and>
                     (if pin_count (pages s ! nat f) - 1 = 0
                      then Unpin (replacer s) f = Inr (replacer s')
                      else replacer s' = replacer s))"
    by (auto simp: UnpinPageImpl_def frame_in_pool_def Let_def)
qed

theorem UnpinPageImpl_spec_witness:
  "\<not> latch pool1_pinned \<and> map_of (page_table pool1_pinned) 0 = Some 0 \<and>
   frame_in_pool pool1_pinned 0 \<and> 0 < maxLen (replacer pool1_pinned) \<and>
   map_of (page_table pool1_pinned) 1 = None \<and>
   UnpinPageImpl pool1_pinned 1 True = Inr (False, pool1_pinned) \<and>
   (\<exists>s'. UnpinPageImpl pool1_pinned 0 True = Inr (True, s') \<and>
      is_dirty (pages s' ! 0) \<and> pin_count (pages s' ! 0) = 0 \<and>
      list_frame_id (replacer s') = [0])"
proof -
  have a: "\<not> latch pool1_pinned" and b: "map_of (page_table pool1_pinned) 1 = None"
    and c: "map_of (page_table pool1_pinned) 0 = Some 0 \<and> frame_in_pool pool1_pinned 0 \<and>
      0 < maxLen (replacer pool1_pinned)"
    by (simp_all add: pool1_defs)
  note th = UnpinPageImpl_spec [OF a, of _ True]
  from th [of 1] b have d: "UnpinPageImpl pool1_pinned 1 True = Inr (False, pool1_pinned)"
    by blast
  from th [of 0] c obtain bb s' where e: "UnpinPageImpl pool1_pinned 0 True = Inr (bb, s')"
    "is_dirty (pages s' ! nat 0) = (True \<or> is_dirty (pages pool1_pinned ! nat 0))"
    "(if pin_count (pages pool1_pinned ! nat 0) = 0
      then \<not> bb \<and> pin_count (pages s' ! nat 0) = 0 \<and> replacer s' = replacer pool1_pinned
      else bb \<and> pin_count (pages s' ! nat 0) = pin_count (pages pool1_pinned ! nat 0) - 1 \<and>
           (if pin_count (pages pool1_pinned ! nat 0) - 1 = 0
            then Unpin (replacer pool1_pinned) 0 = Inr (replacer s')
            else replacer s' = replacer pool1_pinned))"
    by blast
  have u: "Unpin (replacer pool1_pinned) 0 =
      Inr \<lparr>list_frame_id = [0], map_frame_id = [0 \<mapsto> 0], maxLen = 1\<rparr>"
    by (simp add: pool1_defs Unpin_def)
  have pc: "pin_count (pages pool1_pinned ! nat 0) = 1"
    by (simp add: pool1_defs)
  from e(3) pc u have f: "bb" "pin_count (pages s' ! 0) = 0" "list_frame_id (replacer s') = [0]"
    by auto
  from e(2) have g: "is_dirty (pages s' ! 0)" by simp
  from a b c d e(1) f g show ?thesis by auto
qed

section \<open>FlushPageImpl\<close>

text \<open>
  Claim C10. \<^verbatim>\<open>FlushPageImpl\<close> returns, whatever the page id, with the page table, the
  free list, the replacer and every frame (page id, pin count, dirty bit and data) as
  before the call; only the disk manager can differ. The dirty bit of a flushed page is
  among the unchanged fields.
\<close>

theorem FlushPageImpl_frame:
  assumes "\<not> latch s" and "\<forall>f. map_of (page_table s) pid = Some f \<longrightarrow> frame_in_pool s f"
  shows "\<exists>b s'. FlushPageImpl s pid = Inr (b, s') \<and>
           page_table s' = page_table s \<and>
           free_list s' = free_list s \<and>
           replacer s' = replacer s \<and>
           pages s' = pages s \<and>
           pool_size s' = pool_size s \<and>
           latch s' = latch s"
  using assms by (auto simp: FlushPageImpl_def frame_in_pool_def Let_def split: option.splits)

theorem FlushPageImpl_frame_witness:
  "\<not> latch pool1_pinned \<and> frame_in_pool pool1_pinned 0 \<and>
   (\<exists>b s'. FlushPageImpl pool1_pinned 0 = Inr (b, s') \<and>
      pages s' = pages pool1_pinned \<and> page_table s' = page_table pool1_pinned \<and>
      free_list s' = free_list pool1_pinned \<and> replacer s' = replacer pool1_pinned)"
proof -
  have h: "\<not> latch pool1_pinned" "frame_in_pool pool1_pinned 0"
    by (simp_all add: pool1_defs)
  have "map_of (page_table pool1_pinned) 0 = Some 0"
    by (simp add: pool1_defs)
  with h(2) have "\<forall>f. map_of (page_table pool1_pinned) 0 = Some f \<longrightarrow> frame_in_pool pool1_pinned f"
    by simp
  from FlushPageImpl_frame [OF h(1) this] h show ?thesis
    by blast
qed

text \<open>Every path of \<^verbatim>\<open>FlushPageImpl\<close> ends in \<^verbatim>\<open>return false\<close>.\<close>

lemma FlushPageImpl_never_true: "FlushPageImpl s pid = Inr (b, s') \<Longrightarrow> \<not> b"
  by (auto simp: FlushPageImpl_def Let_def split: if_splits option.splits)

text \<open>
  Claim C3 fails on the code. The claim: \<^verbatim>\<open>flush_page(p)\<close> returns \<^verbatim>\<open>false\<close> when
  \<open>p\<close> is invalid or not in the page table, and otherwise writes the frame to disk and
  returns \<^verbatim>\<open>true\<close>. With page 0 resident in frame 0, \<^verbatim>\<open>FlushPageImpl(0)\<close> writes
  the frame's data to disk and returns \<^verbatim>\<open>false\<close>.
\<close>

theorem FlushPageImpl_returns_false_after_write:
  "map_of (page_table pool1_pinned) 0 = Some 0 \<and>
   FlushPageImpl pool1_pinned 0 =
     Inr (False, pool1_pinned\<lparr>disk_manager :=
            WritePage (disk_manager pool1_pinned) 0 (data (pages pool1_pinned ! 0))\<rparr>)"
  by (simp add: pool1_defs FlushPageImpl_def INVALID_PAGE_ID_def)

section \<open>DeletePageImpl\<close>

lemma DeletePageImpl_absent:
  "\<not> latch s \<Longrightarrow> map_of (page_table s) pid = None \<Longrightarrow> DeletePageImpl s pid = Inr (True, s)"
  by (simp add: DeletePageImpl_def)

text \<open>
  Deleting a resident, unpinned, dirty page does not return: \<^verbatim>\<open>DeletePageImpl\<close> calls
  \<^verbatim>\<open>FetchPageImpl\<close>, which locks the latch that \<^verbatim>\<open>DeletePageImpl\<close> holds.
\<close>

lemma DeletePageImpl_dirty_deadlock:
  "\<not> latch s \<Longrightarrow> map_of (page_table s) pid = Some f \<Longrightarrow> frame_in_pool s f \<Longrightarrow>
     pin_count (pages s ! nat f) = 0 \<Longrightarrow> is_dirty (pages s ! nat f) \<Longrightarrow>
     DeletePageImpl s pid = Inl Deadlock"
  by (simp add: DeletePageImpl_def frame_in_pool_def FetchPageImpl_latched)

text \<open>
  Claim C4 fails on the code. The claim: \<^verbatim>\<open>delete_page(p)\<close> for a page that is not in
  the page table calls \<^verbatim>\<open>deallocate_page(p)\<close> and returns \<^verbatim>\<open>true\<close>. In the pool of
  one frame where page 0 was allocated and then evicted by page 1, \<^verbatim>\<open>DeletePageImpl(0)\<close>
  returns \<^verbatim>\<open>true\<close> and the state, the disk manager with its record of calls included,
  is as before: no call was made, and page 0 is still outstanding.
\<close>

theorem DeletePageImpl_absent_no_deallocate:
  "map_of (page_table pool1_evicted) 0 = None \<and>
   DeletePageImpl pool1_evicted 0 = Inr (True, pool1_evicted) \<and>
   outstanding (disk_manager pool1_evicted) = [0, 1]"
  by (simp add: pool1_defs DeletePageImpl_def)

section \<open>NewPageImpl\<close>

text \<open>
  Claim C5, as amended. \<^verbatim>\<open>NewPageImpl\<close> calls \<^verbatim>\<open>AllocatePage\<close> before it looks for a
  frame. When the free list is empty and the replacer tracks no frame, the call returns
  \<^verbatim>\<open>nullptr\<close> and the pool is as before but for the disk manager: it has received
  that one call, and the id it allocated is outstanding, never deallocated and not
  reported to the caller.
\<close>

theorem NewPageImpl_no_frame:
  assumes "\<not> latch s" and "free_list s = []" and "list_frame_id (replacer s) = []"
  shows "\<exists>dm. NewPageImpl s = Inr (None, s\<lparr>disk_manager := dm\<rparr>) \<and>
           calls dm =
             calls (disk_manager s) @ [AllocatePage_call (next_page_id (disk_manager s))] \<and>
           outstanding dm = outstanding (disk_manager s) @ [next_page_id (disk_manager s)]"
proof -
  let ?dm = "snd (AllocatePage (disk_manager s))"
  from assms have "NewPageImpl s = Inr (None, s\<lparr>disk_manager := ?dm\<rparr>)"
    by (simp add: NewPageImpl_def NewPageImpl_frame_def Victim_def split_def)
  moreover have "calls ?dm =
      calls (disk_manager s) @ [AllocatePage_call (next_page_id (disk_manager s))]"
    and "outstanding ?dm = outstanding (disk_manager s) @ [next_page_id (disk_manager s)]"
    by (simp_all add: AllocatePage_def)
  ultimately show ?thesis
    by blast
qed

theorem NewPageImpl_no_frame_witness:
  "\<not> latch pool1_pinned \<and> free_list pool1_pinned = [] \<and>
   list_frame_id (replacer pool1_pinned) = [] \<and>
   (\<exists>dm. NewPageImpl pool1_pinned = Inr (None, pool1_pinned\<lparr>disk_manager := dm\<rparr>) \<and>
      calls dm = calls (disk_manager pool1_pinned) @ [AllocatePage_call 1] \<and>
      outstanding dm = [0, 1])"
proof -
  have h: "\<not> latch pool1_pinned" "free_list pool1_pinned = []"
    "list_frame_id (replacer pool1_pinned) = []"
    by (simp_all add: pool1_defs)
  have n: "next_page_id (disk_manager pool1_pinned) = 1"
    "outstanding (disk_manager pool1_pinned) = [0]"
    by (simp_all add: pool1_defs)
  from NewPageImpl_no_frame [OF h] n h show ?thesis
    by simp
qed

text \<open>
  Claim C5 as stated is false: a \<^verbatim>\<open>new_page\<close> that finds no frame does leak a page
  id. With the only frame pinned, \<^verbatim>\<open>NewPageImpl\<close> returns \<^verbatim>\<open>nullptr\<close>, and the disk
  manager has allocated page 1 in the call: the outstanding ids were \<open>[0]\<close> before and
  are \<open>[0, 1]\<close> after, with no \<^verbatim>\<open>DeallocatePage\<close> among the calls.
\<close>

theorem NewPageImpl_failure_leaks_id:
  "free_list pool1_pinned = [] \<and> list_frame_id (replacer pool1_pinned) = [] \<and>
   NewPageImpl pool1_pinned =
     Inr (None, pool1_pinned\<lparr>disk_manager := snd (AllocatePage (disk_manager pool1_pinned))\<rparr>) \<and>
   outstanding (disk_manager pool1_pinned) = [0] \<and>
   outstanding (snd (AllocatePage (disk_manager pool1_pinned))) = [0, 1] \<and>
   calls (snd (AllocatePage (disk_manager pool1_pinned))) =
     calls (disk_manager pool1_pinned) @ [AllocatePage_call 1]"
  by (simp add: pool1_defs NewPageImpl_def NewPageImpl_frame_def AllocatePage_def Victim_def)

section \<open>Calls on a well-formed pool return\<close>

text \<open>
  On a well-formed pool, and so on every pool reached from fewer than \<open>2 ^ 31\<close> frames,
  no call indexes \<^verbatim>\<open>pages_\<close> outside the array or runs the loop of \<^verbatim>\<open>Unpin\<close> on
  a capacity of zero: every call returns, but for \<^verbatim>\<open>DeletePageImpl\<close> on a resident,
  unpinned and dirty page, which blocks on the latch.
\<close>

lemma wf_pool_resident:
  assumes "wf_pool s" and "map_of (page_table s) pid = Some f"
  shows "frame_in_pool s f" and "0 < maxLen (replacer s)"
proof -
  from map_of_snd [OF assms(2)] have "f \<in> snd ` set (page_table s)" .
  moreover from assms(1) have "snd ` set (page_table s) \<subseteq> pool_frames s"
    by (simp add: wf_pool_def)
  ultimately have "f \<in> pool_frames s"
    by blast
  then show fp: "frame_in_pool s f"
    by (simp add: pool_frames_def)
  from assms(1) have "maxLen (replacer s) = length (pages s)"
    by (simp add: wf_pool_def)
  with fp show "0 < maxLen (replacer s)"
    by (auto simp: frame_in_pool_def)
qed

lemma wf_pool_victim:
  assumes "wf_pool s" and "Victim (replacer s) = (Some f, r)"
  shows "frame_in_pool s f"
proof -
  from Victim_Some [OF assms(2)] have "f \<in> set (list_frame_id (replacer s))"
    by simp
  moreover from assms(1) have "set (list_frame_id (replacer s)) \<subseteq> pool_frames s"
    by (simp add: wf_pool_def)
  ultimately show ?thesis
    by (auto simp: pool_frames_def)
qed

lemma FetchPageImpl_returns:
  assumes "wf_pool s"
  shows "\<exists>r s'. FetchPageImpl s pid = Inr (r, s')"
proof -
  from assms have l: "\<not> latch s"
    by (simp add: wf_pool_def)
  show ?thesis
  proof (cases "map_of (page_table s) pid")
    case (Some f)
    from wf_pool_resident(1) [OF assms Some] l Some show ?thesis
      by (auto simp: FetchPageImpl_def frame_in_pool_def Let_def)
  next
    case None
    show ?thesis
    proof (cases "Victim (replacer s)")
      case (Pair v r)
      show ?thesis
      proof (cases v)
        case None
        with Pair l \<open>map_of (page_table s) pid = None\<close> show ?thesis
          by (auto simp: FetchPageImpl_def Let_def)
      next
        case (Some f)
        with Pair wf_pool_victim [OF assms, of f r] have "frame_in_pool s f"
          by simp
        with Some Pair l \<open>map_of (page_table s) pid = None\<close> show ?thesis
          by (auto simp: FetchPageImpl_def frame_in_pool_def Let_def)
      qed
    qed
  qed
qed

lemma UnpinPageImpl_returns:
  assumes "wf_pool s"
  shows "\<exists>b s'. UnpinPageImpl s pid dirty = Inr (b, s')"
proof -
  from assms have l: "\<not> latch s"
    by (simp add: wf_pool_def)
  show ?thesis
  proof (cases "map_of (page_table s) pid")
    case None
    with l show ?thesis
      by (auto simp: UnpinPageImpl_def)
  next
    case (Some f)
    from wf_pool_resident [OF assms Some] have fp: "frame_in_pool s f" and m: "0 < maxLen (replacer s)" .
    from Unpin_returns [OF m] obtain r' where "Unpin (replacer s) f = Inr r'"
      by blast
    with l Some fp show ?thesis
      by (auto simp: UnpinPageImpl_def frame_in_pool_def Let_def)
  qed
qed

lemma FlushPageImpl_returns:
  assumes "wf_pool s"
  shows "\<exists>b s'. FlushPageImpl s pid = Inr (b, s')"
proof -
  from assms have l: "\<not> latch s"
    by (simp add: wf_pool_def)
  show ?thesis
  proof (cases "map_of (page_table s) pid")
    case None
    with l show ?thesis
      by (auto simp: FlushPageImpl_def)
  next
    case (Some f)
    from wf_pool_resident(1) [OF assms Some] l Some show ?thesis
      by (auto simp: FlushPageImpl_def frame_in_pool_def Let_def)
  qed
qed

lemma FlushAllPagesImpl_loop_returns:
  "\<forall>f \<in> snd ` set pt. 0 \<le> f \<and> nat f < length pgs \<Longrightarrow>
     \<exists>dm'. FlushAllPagesImpl_loop pgs pt dm = Inr dm'"
  by (induction pt arbitrary: dm) auto

lemma FlushAllPagesImpl_returns:
  assumes "wf_pool s"
  shows "\<exists>s'. FlushAllPagesImpl s = Inr s'"
proof -
  from assms have l: "\<not> latch s"
    and "\<forall>f \<in> snd ` set (page_table s). 0 \<le> f \<and> nat f < length (pages s)"
    by (auto simp: wf_pool_def pool_frames_def frame_in_pool_def)
  from FlushAllPagesImpl_loop_returns [OF this(2)] obtain dm' where
    "FlushAllPagesImpl_loop (pages s) (page_table s) (disk_manager s) = Inr dm'"
    by blast
  with l show ?thesis
    by (simp add: FlushAllPagesImpl_def)
qed

lemma NewPageImpl_frame_returns:
  assumes "wf_pool s"
  shows "\<exists>f s1. NewPageImpl_frame (s\<lparr>latch := True, disk_manager := dm\<rparr>) = Inr (f, s1) \<and>
           (f = - 1 \<or> frame_in_pool s1 f)"
proof (cases "free_list s = []")
  case False
  then have "hd (free_list s) \<in> set (free_list s)"
    by simp
  moreover from assms have "set (free_list s) \<subseteq> pool_frames s"
    by (simp add: wf_pool_def)
  ultimately have "frame_in_pool s (hd (free_list s))"
    by (auto simp: pool_frames_def)
  with False show ?thesis
    by (simp add: NewPageImpl_frame_def frame_in_pool_def)
next
  case True
  show ?thesis
  proof (cases "Victim (replacer s)")
    case (Pair v r)
    show ?thesis
    proof (cases v)
      case None
      with Pair True show ?thesis
        by (simp add: NewPageImpl_frame_def)
    next
      case (Some f)
      with Pair wf_pool_victim [OF assms, of f r] have "frame_in_pool s f"
        by simp
      with Some Pair True show ?thesis
        by (simp add: NewPageImpl_frame_def frame_in_pool_def Let_def)
    qed
  qed
qed

lemma NewPageImpl_returns:
  assumes "wf_pool s"
  shows "\<exists>r s'. NewPageImpl s = Inr (r, s')"
proof -
  from assms have l: "\<not> latch s"
    by (simp add: wf_pool_def)
  obtain tmp_page_id dm where al: "AllocatePage (disk_manager s) = (tmp_page_id, dm)"
    by (cases "AllocatePage (disk_manager s)")
  from NewPageImpl_frame_returns [OF assms, of dm] obtain f s1 where
    "NewPageImpl_frame (s\<lparr>latch := True, disk_manager := dm\<rparr>) = Inr (f, s1)"
    "f = - 1 \<or> frame_in_pool s1 f"
    by blast
  with l al show ?thesis
    by (auto simp: NewPageImpl_def Let_def)
qed

lemma DeletePageImpl_returns_or_deadlocks:
  assumes "wf_pool s"
  shows "(\<exists>b s'. DeletePageImpl s pid = Inr (b, s')) \<or>
         (DeletePageImpl s pid = Inl Deadlock \<and>
          (\<exists>f. map_of (page_table s) pid = Some f \<and> pin_count (pages s ! nat f) = 0 \<and>
               is_dirty (pages s ! nat f)))"
proof -
  from assms have l: "\<not> latch s"
    by (simp add: wf_pool_def)
  show ?thesis
  proof (cases "map_of (page_table s) pid")
    case None
    with l show ?thesis
      by (auto simp: DeletePageImpl_def)
  next
    case (Some f)
    from wf_pool_resident(1) [OF assms Some] have fp: "frame_in_pool s f" .
    show ?thesis
    proof (cases "pin_count (pages s ! nat f) = 0 \<and> is_dirty (pages s ! nat f)")
      case True
      with l Some fp DeletePageImpl_dirty_deadlock [of s pid f] show ?thesis
        by simp
    next
      case False
      with l Some fp show ?thesis
        by (auto simp: DeletePageImpl_def frame_in_pool_def Let_def)
    qed
  qed
qed

end
